theory Spec2Isabelle
  imports Complex_Main "HOL-Library.Word"
begin

unbundle bit_operations_syntax

section \<open>The sweep-program parser (cmd/region-eval/main.go)\<close>

text \<open>
  A Go call either returns a value, returns an error value, or panics at run time
  (here: an index out of range on a string).  The three outcomes are kept apart.
\<close>

datatype parse_error =
    InvalidVaryProgram string
  | UnknownParameter string
  | CannotParseLo string
  | CannotParseHi string
  | CannotParseSteps string

datatype panic =
    IndexOutOfRange
  | SliceBoundsOutOfRange
  | NilDereference
  | ExpectedZeroedMemory
  | OutOfMemory

datatype 'a result = Ok 'a | Err parse_error | Panicked panic

text \<open>The keys of \<open>param2Extractor\<close>; each names one float field of a scenario.\<close>

datatype param = B_R | O_R | B_F | O_F | C_R | P_F

definition param2Extractor :: "string \<Rightarrow> param option" where
  "param2Extractor s =
     (if s = ''B_R'' then Some B_R
      else if s = ''O_R'' then Some O_R
      else if s = ''B_F'' then Some B_F
      else if s = ''O_F'' then Some O_F
      else if s = ''C_R'' then Some C_R
      else if s = ''P_F'' then Some P_F
      else None)"

text \<open>\<open>strings.IndexByte\<close>: the index of the first occurrence, \<open>None\<close> for Go's \<open>-1\<close>.\<close>

fun IndexByte :: "string \<Rightarrow> char \<Rightarrow> nat option" where
  "IndexByte [] c = None"
| "IndexByte (x # xs) c =
     (if x = c then Some 0 else map_option Suc (IndexByte xs c))"

record varyVar =
  extract' :: param
  lo :: real
  hi :: real

record VaryProgram =
  vars :: "varyVar list"
  steps :: int

text \<open>
  The \<open>for\<close> loop of \<open>parseVaryProgram\<close>.  \<open>strconv.ParseFloat\<close> belongs to the Go
  library and is the parameter \<open>pf\<close>.  The loop returns the variables read and the rest
  of the string after the \<open>/\<close>.  Reading \<open>vp[0]\<close> of an empty string panics.
\<close>

function parseVaryVars ::
  "(string \<Rightarrow> real option) \<Rightarrow> varyVar list \<Rightarrow> string \<Rightarrow> (varyVar list \<times> string) result"
where
  "parseVaryVars pf vs vp =
     (case IndexByte vp (CHR ''='') of
        None \<Rightarrow> Err (InvalidVaryProgram vp)
      | Some i \<Rightarrow>
          (case param2Extractor (take i vp) of
             None \<Rightarrow> Err (UnknownParameter (take i vp))
           | Some ex \<Rightarrow>
               (let vp1 = drop (i + 1) vp in
                if vp1 = [] then Panicked IndexOutOfRange
                else if hd vp1 \<noteq> CHR ''['' then Err (InvalidVaryProgram vp1)
                else
                  (let vp2 = tl vp1 in
                   case IndexByte vp2 (CHR '':'') of
                     None \<Rightarrow> Err (InvalidVaryProgram vp2)
                   | Some j \<Rightarrow>
                       (case pf (take j vp2) of
                          None \<Rightarrow> Err (CannotParseLo (take j vp2))
                        | Some l \<Rightarrow>
                            (let vp3 = drop (j + 1) vp2 in
                             case IndexByte vp3 (CHR '']'') of
                               None \<Rightarrow> Err (InvalidVaryProgram vp3)
                             | Some k \<Rightarrow>
                                 (case pf (take k vp3) of
                                    None \<Rightarrow> Err (CannotParseHi (take k vp3))
                                  | Some h \<Rightarrow>
                                      (let vs' = vs @ [\<lparr>extract' = ex, lo = l, hi = h\<rparr>];
                                           vp4 = drop (k + 1) vp3 in
                                       if vp4 = [] then Panicked IndexOutOfRange
                                       else if hd vp4 = CHR ''/'' then Ok (vs', tl vp4)
                                       else if hd vp4 \<noteq> CHR '','' then Err (InvalidVaryProgram vp4)
                                       else parseVaryVars pf vs' (tl vp4)))))))))"
  by pat_completeness auto
termination
  by (relation "measure (\<lambda>(pf, vs, vp). length vp)") (auto simp: less_Suc_eq_le)

declare parseVaryVars.simps [simp del]

text \<open>\<open>strconv.ParseInt(vp, 10, 64)\<close> is the parameter \<open>pint\<close>.\<close>

definition parseVaryProgram ::
  "(string \<Rightarrow> real option) \<Rightarrow> (string \<Rightarrow> int option) \<Rightarrow> string \<Rightarrow> VaryProgram result"
where
  "parseVaryProgram pf pint vp =
     (case parseVaryVars pf [] vp of
        Err e \<Rightarrow> Err e
      | Panicked p \<Rightarrow> Panicked p
      | Ok (vs, rest) \<Rightarrow>
          (case pint rest of
             None \<Rightarrow> Err (CannotParseSteps rest)
           | Some n \<Rightarrow> Ok \<lparr>vars = vs, steps = n\<rparr>))"


section \<open>Bit arithmetic (cpusim/bitmath and math/bits)\<close>

type_synonym uintptr = "64 word"

definition AlignUp :: "uintptr \<Rightarrow> uintptr \<Rightarrow> uintptr" where
  "AlignUp x align = (x + align - 1) AND NOT (align - 1)"

definition AlignDown :: "uintptr \<Rightarrow> uintptr \<Rightarrow> uintptr" where
  "AlignDown x align = x AND NOT (align - 1)"

text \<open>
  \<open>bits.TrailingZeros64\<close> and \<open>bits.LeadingZeros64\<close> of the Go library: the number of
  zero bits below the lowest (above the highest) set bit, and 64 for the word 0.
\<close>

fun ctz :: "nat \<Rightarrow> 64 word \<Rightarrow> nat" where
  "ctz 0 x = 0"
| "ctz (Suc k) x = (if bit x 0 then 0 else Suc (ctz k (drop_bit 1 x)))"

fun clz :: "nat \<Rightarrow> 64 word \<Rightarrow> nat" where
  "clz 0 x = 0"
| "clz (Suc k) x = (if bit x 63 then 0 else Suc (clz k (push_bit 1 x)))"

definition TrailingZeros64 :: "64 word \<Rightarrow> nat" where
  "TrailingZeros64 x = ctz 64 x"

definition LeadingZeros64 :: "64 word \<Rightarrow> nat" where
  "LeadingZeros64 x = clz 64 x"

section \<open>Memory\<close>

text \<open>
  Memory is byte addressed.  Words of 16 and 64 bits are read and written little-endian,
  as on the machines the program runs on (\<open>Block.Reset\<close> says so itself).
\<close>

type_synonym memory = "uintptr \<Rightarrow> 8 word"

definition load64 :: "memory \<Rightarrow> uintptr \<Rightarrow> 64 word" where
  "load64 m a =
     ucast (m a) OR push_bit 8 (ucast (m (a + 1))) OR push_bit 16 (ucast (m (a + 2)))
     OR push_bit 24 (ucast (m (a + 3))) OR push_bit 32 (ucast (m (a + 4)))
     OR push_bit 40 (ucast (m (a + 5))) OR push_bit 48 (ucast (m (a + 6)))
     OR push_bit 56 (ucast (m (a + 7)))"

definition store64 :: "memory \<Rightarrow> uintptr \<Rightarrow> 64 word \<Rightarrow> memory" where
  "store64 m a v =
     m(a := ucast v, a + 1 := ucast (drop_bit 8 v), a + 2 := ucast (drop_bit 16 v),
       a + 3 := ucast (drop_bit 24 v), a + 4 := ucast (drop_bit 32 v),
       a + 5 := ucast (drop_bit 40 v), a + 6 := ucast (drop_bit 48 v),
       a + 7 := ucast (drop_bit 56 v))"

definition store16 :: "memory \<Rightarrow> uintptr \<Rightarrow> 16 word \<Rightarrow> memory" where
  "store16 m a v = m(a := ucast v, a + 1 := ucast (drop_bit 8 v))"

text \<open>\<open>memclrNoHeapPointers(addr, size)\<close>: the bytes \<open>addr, ..., addr + size - 1\<close> become 0.\<close>

definition memclrNoHeapPointers :: "memory \<Rightarrow> uintptr \<Rightarrow> uintptr \<Rightarrow> memory" where
  "memclrNoHeapPointers m addr sz = (\<lambda>x. if x - addr < sz then 0 else m x)"

datatype 'a run = Done 'a | Panic panic

section \<open>Blocks (cpusim allocator)\<close>

definition BlockSize :: uintptr where "BlockSize = 8192"
definition lineSize :: uintptr where "lineSize = 128"
definition headerSize :: uintptr where "headerSize = 8"
definition minAlign :: uintptr where "minAlign = 8"
definition BitmapSize :: uintptr where "BitmapSize = 128"

text \<open>
  A \<open>Block\<close>: \<open>data\<close> is the address of the 8192-byte array and \<open>bytes\<close> its contents
  (read at absolute addresses).  The \<open>next\<close> link is the list structure of the
  allocator's \<open>full\<close> list below.
\<close>

record Block =
  cursor :: uintptr
  limit :: uintptr
  lineAlloc :: "64 word"
  data :: uintptr
  bytes :: memory

text \<open>The fields of \<open>BlockMeta\<close>, which lies at the start of the block's array.\<close>

definition EscBits :: "memory \<Rightarrow> uintptr \<Rightarrow> uintptr \<Rightarrow> 64 word" where
  "EscBits m d k = load64 m (d + 8 * k)"

definition ObjBits :: "memory \<Rightarrow> uintptr \<Rightarrow> uintptr \<Rightarrow> 64 word" where
  "ObjBits m d k = load64 m (d + 128 + 8 * k)"

definition LineEscape :: "memory \<Rightarrow> uintptr \<Rightarrow> 64 word" where
  "LineEscape m d = load64 m (d + 256)"

definition Region :: "memory \<Rightarrow> uintptr \<Rightarrow> 64 word" where
  "Region m d = load64 m (d + 264)"

definition Base :: "Block \<Rightarrow> uintptr" where
  "Base b = data b"

definition Contains :: "Block \<Rightarrow> uintptr \<Rightarrow> bool" where
  "Contains b p = (data b \<le> p \<and> p \<le> data b + 8191)"

text \<open>
  \<open>tryAllocFast\<close> returns the address and the block as it leaves it; the address 0 is
  Go's \<open>nil\<close>.  \<open>b.data[k]\<close> is an array access and panics for \<open>k \<ge> 8192\<close>.
\<close>

definition tryAllocFast :: "Block \<Rightarrow> uintptr \<Rightarrow> (uintptr \<times> Block) run" where
  "tryAllocFast b sz =
     (let c = cursor b; n = c + sz in
      if n < limit b then
        (let wi = (c - Base b) div minAlign;
             k = BitmapSize + wi div 8 in
         if BlockSize \<le> k then Panic IndexOutOfRange
         else Done (c, b\<lparr>cursor := n,
                bytes := (bytes b)(data b + k :=
                   bytes b (data b + k) OR push_bit (unat (wi mod 8)) 1)\<rparr>))
      else Done (0, b))"

definition refill :: "Block \<Rightarrow> bool \<times> Block" where
  "refill b =
     (let la = lineAlloc b;
          i = TrailingZeros64 (NOT la) in
      if i = 64 then (False, b)
      else
        (let n0 = TrailingZeros64 (drop_bit i la);
             n = (if n0 = 64 then n0 - i else n0);
             c = data b + of_nat i * lineSize in
         (True, b\<lparr>lineAlloc := la OR push_bit i (push_bit n 1 - 1),
                   cursor := (if i = 2 then c + 16 else c),
                   limit := c + of_nat n * lineSize\<rparr>)))"


text \<open>Facts about the bit counts, needed for the loops below to be total.\<close>

lemma ctz_le: "ctz k x \<le> k"
  by (induction k arbitrary: x) auto

lemma ctz_bit: "ctz k x < k \<Longrightarrow> bit x (ctz k x)"
proof (induction k arbitrary: x)
  case 0 then show ?case by simp
next
  case (Suc k)
  show ?case
  proof (cases "bit x 0")
    case True then show ?thesis by simp
  next
    case False
    with Suc.prems have "ctz k (drop_bit 1 x) < k" by simp
    from Suc.IH[OF this] have "bit x (1 + ctz k (drop_bit 1 x))"
      by (simp only: bit_drop_bit_eq o_def)
    with False show ?thesis by simp
  qed
qed

lemma ctz_below: "j < ctz k x \<Longrightarrow> \<not> bit x j"
proof (induction k arbitrary: x j)
  case 0 then show ?case by simp
next
  case (Suc k)
  show ?case
  proof (cases j)
    case 0 with Suc.prems show ?thesis by (auto split: if_splits)
  next
    case (Suc j')
    with Suc.prems have "j' < ctz k (drop_bit 1 x)" by (auto split: if_splits)
    from Suc.IH[OF this] show ?thesis using Suc by (simp add: bit_drop_bit_eq)
  qed
qed

lemma TrailingZeros64_le: "TrailingZeros64 x \<le> 64"
  by (simp add: TrailingZeros64_def ctz_le)

lemma TrailingZeros64_bit: "TrailingZeros64 x \<noteq> 64 \<Longrightarrow> bit x (TrailingZeros64 x)"
  using ctz_bit[of 64 x] ctz_le[of 64 x] by (simp add: TrailingZeros64_def)

lemma TrailingZeros64_below: "j < TrailingZeros64 x \<Longrightarrow> \<not> bit x j"
  by (simp add: TrailingZeros64_def ctz_below)

lemma TrailingZeros64_pos: "\<not> bit x 0 \<Longrightarrow> 0 < TrailingZeros64 x"
  using ctz.simps(2)[of 63 x] by (simp add: TrailingZeros64_def)

lemma word_or_bit_less:
  fixes x :: "64 word"
  assumes "bit m i" "\<not> bit x i"
  shows "x < x OR m"
proof -
  have "x \<le> x OR m" by (rule le_word_or2)
  moreover have "x \<noteq> x OR m"
  proof
    assume e: "x = x OR m"
    have "bit (x OR m) i" using assms(1) by (simp add: bit_or_iff)
    then have "bit x i" by (subst e)
    with assms(2) show False by simp
  qed
  ultimately show ?thesis by simp
qed

lemma refill_True:
  assumes "refill b = (True, b')"
  shows "TrailingZeros64 (NOT (lineAlloc b)) \<noteq> 64"
    and "lineAlloc b' = lineAlloc b OR push_bit (TrailingZeros64 (NOT (lineAlloc b)))
           (push_bit (if TrailingZeros64 (drop_bit (TrailingZeros64 (NOT (lineAlloc b))) (lineAlloc b)) = 64
                      then 64 - TrailingZeros64 (NOT (lineAlloc b))
                      else TrailingZeros64 (drop_bit (TrailingZeros64 (NOT (lineAlloc b))) (lineAlloc b))) 1 - 1)"
proof -
  show 1: "TrailingZeros64 (NOT (lineAlloc b)) \<noteq> 64"
    using assms unfolding refill_def Let_def by (cases "TrailingZeros64 (NOT (lineAlloc b)) = 64") simp_all
  show "lineAlloc b' = lineAlloc b OR push_bit (TrailingZeros64 (NOT (lineAlloc b)))
           (push_bit (if TrailingZeros64 (drop_bit (TrailingZeros64 (NOT (lineAlloc b))) (lineAlloc b)) = 64
                      then 64 - TrailingZeros64 (NOT (lineAlloc b))
                      else TrailingZeros64 (drop_bit (TrailingZeros64 (NOT (lineAlloc b))) (lineAlloc b))) 1 - 1)"
    using assms 1 unfolding refill_def Let_def
    by (cases "TrailingZeros64 (drop_bit (TrailingZeros64 (NOT (lineAlloc b))) (lineAlloc b)) = 64") auto
qed

lemma refill_lineAlloc_less:
  assumes "refill b = (True, b')"
  shows "lineAlloc b < lineAlloc b'"
proof -
  define i where "i = TrailingZeros64 (NOT (lineAlloc b))"
  define n0 where "n0 = TrailingZeros64 (drop_bit i (lineAlloc b))"
  define n where "n = (if n0 = 64 then 64 - i else n0)"
  from refill_True[OF assms] have i: "i \<noteq> 64"
    and la': "lineAlloc b' = lineAlloc b OR push_bit i (push_bit n 1 - 1)"
    by (simp_all add: i_def n0_def n_def)
  from i TrailingZeros64_le[of "NOT (lineAlloc b)"] have i64: "i < 64" by (simp add: i_def)
  from TrailingZeros64_bit[of "NOT (lineAlloc b)"] i have nb: "\<not> bit (lineAlloc b) i"
    by (simp add: bit_not_iff i_def)
  then have "\<not> bit (drop_bit i (lineAlloc b)) 0" by (simp add: bit_drop_bit_eq)
  from TrailingZeros64_pos[OF this] have "0 < n0" by (simp add: n0_def)
  then have npos: "0 < n" using i64 by (auto simp: n_def)
  have "push_bit n 1 - 1 = (mask n :: 64 word)" by (simp add: mask_eq_exp_minus_1 push_bit_eq_mult)
  then have "bit (push_bit i (push_bit n 1 - 1) :: 64 word) i"
    using npos i64 by (simp add: bit_push_bit_iff bit_mask_iff)
  from word_or_bit_less[OF this nb] la' show ?thesis by simp
qed

lemma tryAllocFast_lineAlloc:
  "tryAllocFast b sz = Done (a, b') \<Longrightarrow> lineAlloc b' = lineAlloc b"
  by (auto simp: tryAllocFast_def Let_def split: if_splits)

lemma drop_bit_less:
  fixes c :: "64 word"
  assumes "c \<noteq> 0" "0 < k"
  shows "drop_bit k c < c"
proof -
  have "unat c \<noteq> 0" using assms by (simp add: unat_eq_0)
  moreover have "(2::nat) \<le> 2 ^ k" using assms(2) by (metis One_nat_def Suc_leI one_le_numeral power_increasing power_one_right)
  ultimately have "unat c div 2 ^ k < unat c" by (intro div_less_dividend) auto
  then have "drop_bit k (unat c) < unat c" by (simp only: drop_bit_eq_div)
  then show ?thesis by (simp only: word_less_nat_alt unat_drop_bit_eq)
qed


function tryAlloc1 :: "Block \<Rightarrow> uintptr \<Rightarrow> (uintptr \<times> Block) run" where
  "tryAlloc1 b sz =
     (case refill b of
        (False, b') \<Rightarrow> Done (0, b')
      | (True, b') \<Rightarrow>
          (case tryAllocFast b' sz of
             Panic p \<Rightarrow> Panic p
           | Done (addr, b'') \<Rightarrow>
               if addr \<noteq> 0 then Done (addr, b'') else tryAlloc1 b'' sz))"
  by pat_completeness auto
termination
proof (relation "measure (\<lambda>(b, sz). 2 ^ 64 - unat (lineAlloc b))", goal_cases)
  case 1
  show ?case by simp
next
  case (2 b sz x y x1 xa ya)
  then have r: "refill b = (True, y)" and t: "tryAllocFast y sz = Done (xa, ya)" by auto
  from refill_lineAlloc_less[OF r] tryAllocFast_lineAlloc[OF t]
  have "unat (lineAlloc b) < unat (lineAlloc ya)" by (simp add: word_less_nat_alt)
  moreover have "unat (lineAlloc ya) < 2 ^ 64"
    using unsigned_less[of "lineAlloc ya", where ?'a = nat] by simp
  ultimately show ?case by simp
qed

declare tryAlloc1.simps [simp del]


definition tryAlloc :: "Block \<Rightarrow> uintptr \<Rightarrow> (uintptr \<times> Block) run" where
  "tryAlloc b sz =
     (case tryAllocFast b sz of
        Panic p \<Rightarrow> Panic p
      | Done (addr, b') \<Rightarrow> if addr \<noteq> 0 then Done (addr, b') else tryAlloc1 b' sz)"


text \<open>
  \<open>Block.Reset\<close>.  \<open>ObjBits\<close> is viewed as 64 chunks of 16 bits, one per line; the
  chunks \<open>toClear = ObjBits[i : i+n]\<close> are set to 0, and the slice expression panics
  when \<open>i + n\<close> exceeds 64.  \<open>clearRuns\<close> is the \<open>for clearIter != 0\<close> loop, \<open>p\<close> the
  address of \<open>ObjBits[0]\<close>.
\<close>

definition clearChunks :: "memory \<Rightarrow> uintptr \<Rightarrow> nat \<Rightarrow> nat \<Rightarrow> memory" where
  "clearChunks m p i n = fold (\<lambda>j m'. store16 m' (p + 2 * of_nat j) 0) [i..<i + n] m"

lemma clearRuns_step_less:
  fixes c :: "64 word"
  assumes "c \<noteq> 0" and i: "i = TrailingZeros64 (NOT c)" and c1: "c1 = drop_bit i c"
    and n0: "n0 = TrailingZeros64 c1" and n: "n = (if n0 = 64 then n0 - i else n0)"
  shows "unat (drop_bit n c1) < unat c"
proof -
  have "0 < n + i"
  proof (cases "i = 0")
    case True
    with TrailingZeros64_bit[of "NOT c"] have "\<not> bit c 0" by (simp add: i bit_not_iff)
    with True have "\<not> bit c1 0" by (simp add: c1)
    from TrailingZeros64_pos[OF this] have "0 < n0" by (simp add: n0)
    with True show ?thesis by (auto simp: n)
  next
    case False
    then show ?thesis by simp
  qed
  from drop_bit_less[OF assms(1) this] have "drop_bit n c1 < c"
    by (simp only: drop_bit_drop_bit c1)
  then show ?thesis by (simp only: word_less_nat_alt)
qed

function clearRuns :: "memory \<Rightarrow> uintptr \<Rightarrow> 64 word \<Rightarrow> memory run" where
  "clearRuns m p clearIter =
     (if clearIter = 0 then Done m
      else
        (let i = TrailingZeros64 (NOT clearIter);
             c1 = drop_bit i clearIter;
             n0 = TrailingZeros64 c1;
             n = (if n0 = 64 then n0 - i else n0) in
         if 64 < i + n then Panic SliceBoundsOutOfRange
         else clearRuns (clearChunks m p i n) p (drop_bit n c1)))"
  by pat_completeness auto
termination
proof (relation "measure (\<lambda>(m, p, c). unat c)", goal_cases)
  case 1
  show ?case by simp
next
  case (2 m p clearIter i c1 n0 n)
  from clearRuns_step_less[OF 2(1) 2(2) 2(3) 2(4) 2(5)]
  show ?case by simp
qed

declare clearRuns.simps [simp del]

definition Meta :: "Block \<Rightarrow> uintptr" where
  "Meta b = data b"

definition Reset :: "Block \<Rightarrow> Block run" where
  "Reset b =
     (let d = Meta b;
          la = LineEscape (bytes b) d OR 3 in
      case clearRuns (bytes b) (d + 128) la of
        Panic e \<Rightarrow> Panic e
      | Done m \<Rightarrow> Done (b\<lparr>lineAlloc := la, cursor := 0, limit := 0, bytes := m\<rparr>))"

text \<open>
  \<open>NewBlock\<close> takes the address at which Go's \<open>new\<close> places the fresh, zeroed array.
  \<open>NewBlockFromExisting\<close> takes the caller's array: its address and its contents.
\<close>

definition NewBlock :: "uintptr \<Rightarrow> 64 word \<Rightarrow> Block run" where
  "NewBlock a lines =
     Reset \<lparr>cursor = 0, limit = 0, lineAlloc = 0, data = a,
            bytes = store64 (\<lambda>_. 0) (a + 256) lines\<rparr>"

definition NewBlockFromExisting :: "64 word \<Rightarrow> uintptr \<Rightarrow> uintptr \<Rightarrow> memory \<Rightarrow> Block run" where
  "NewBlockFromExisting lines region a m =
     Reset \<lparr>cursor = 0, limit = 0, lineAlloc = 0, data = a,
            bytes = store64 (store64 m (a + 256) lines) (a + 264) region\<rparr>"

text \<open>
  The slice expression in \<open>Reset\<close> is always within bounds, and resetting an array of
  zeros leaves it as it is: a block from \<open>NewBlock(0)\<close> is all zero, with the two
  metadata lines marked as allocated.
\<close>

lemma store16_zero: "store16 (\<lambda>_. 0) q 0 = (\<lambda>_. 0)"
  by (rule ext) (simp add: store16_def)

lemma store64_zero: "store64 (\<lambda>_. 0) q 0 = (\<lambda>_. 0)"
  by (rule ext) (simp add: store64_def)

lemma clearChunks_zero: "clearChunks (\<lambda>_. 0) p i n = (\<lambda>_. 0)"
proof -
  have "fold (\<lambda>j m'. store16 m' (p + 2 * of_nat j) 0) js (\<lambda>_. 0) = (\<lambda>_. 0)" for js :: "nat list"
    by (induction js) (simp_all add: store16_zero)
  then show ?thesis by (simp add: clearChunks_def)
qed

lemma clearRuns_unfold:
  assumes "c \<noteq> 0" "i = TrailingZeros64 (NOT c)" "c1 = drop_bit i c"
    "n0 = TrailingZeros64 c1" "n = (if n0 = 64 then n0 - i else n0)"
  shows "clearRuns m p c =
     (if 64 < i + n then Panic SliceBoundsOutOfRange
      else clearRuns (clearChunks m p i n) p (drop_bit n c1))"
proof -
  have "clearRuns m p c =
     (let i = TrailingZeros64 (NOT c);
          c1 = drop_bit i c;
          n0 = TrailingZeros64 c1;
          n = (if n0 = 64 then n0 - i else n0) in
      if 64 < i + n then Panic SliceBoundsOutOfRange
      else clearRuns (clearChunks m p i n) p (drop_bit n c1))"
    using assms(1) by (simp only: clearRuns.simps[of m p c] if_False)
  then show ?thesis by (simp only: Let_def assms(2-5)[symmetric])
qed

lemma clearRuns_0: "clearRuns m p 0 = Done m"
  by (simp add: clearRuns.simps[of m p 0])

lemma clearRuns_in_bounds:
  assumes "i = TrailingZeros64 (NOT c)" "c1 = drop_bit i c"
    "n0 = TrailingZeros64 c1" "n = (if n0 = 64 then n0 - i else n0)"
  shows "i + n \<le> 64"
proof (cases "n0 = 64")
  case True
  with TrailingZeros64_le[of "NOT c"] assms show ?thesis by simp
next
  case False
  from TrailingZeros64_bit[of c1] False assms have "bit c1 n0" by simp
  then have "bit c (i + n0)" by (simp add: assms(2) bit_drop_bit_eq)
  then have "i + n0 < 64" using bit_imp_le_length[of c "i + n0"] by simp
  with False assms show ?thesis by simp
qed


lemma clearRuns_no_panic: "\<exists>m'. clearRuns m p c = Done m'"
proof (induction m p c rule: clearRuns.induct)
  case (1 m p c)
  show ?case
  proof (cases "c = 0")
    case True
    then show ?thesis by (simp add: clearRuns_0)
  next
    case False
    define i where "i = TrailingZeros64 (NOT c)"
    define c1 where "c1 = drop_bit i c"
    define n0 where "n0 = TrailingZeros64 c1"
    define n where "n = (if n0 = 64 then n0 - i else n0)"
    from clearRuns_in_bounds[OF i_def c1_def n0_def n_def] have nb: "\<not> 64 < i + n" by simp
    from "1.IH"[OF False i_def c1_def n0_def n_def nb]
    obtain m' where "clearRuns (clearChunks m p i n) p (drop_bit n c1) = Done m'" by blast
    with nb show ?thesis
      by (simp add: clearRuns_unfold[OF False i_def c1_def n0_def n_def])
  qed
qed

lemma clearRuns_zero: "clearRuns (\<lambda>_. 0) p c = Done (\<lambda>_. 0)"
proof (induction "(\<lambda>_. 0) :: memory" p c rule: clearRuns.induct)
  case (1 p c)
  show ?case
  proof (cases "c = 0")
    case True
    then show ?thesis by (simp add: clearRuns_0)
  next
    case False
    define i where "i = TrailingZeros64 (NOT c)"
    define c1 where "c1 = drop_bit i c"
    define n0 where "n0 = TrailingZeros64 c1"
    define n where "n = (if n0 = 64 then n0 - i else n0)"
    from clearRuns_in_bounds[OF i_def c1_def n0_def n_def] have nb: "\<not> 64 < i + n" by simp
    from "1.hyps"[OF False i_def c1_def n0_def n_def nb clearChunks_zero]
    show ?thesis using nb
      by (simp add: clearRuns_unfold[OF False i_def c1_def n0_def n_def] clearChunks_zero)
  qed
qed

lemma NewBlock_zero:
  "NewBlock a 0 = Done \<lparr>cursor = 0, limit = 0, lineAlloc = 3, data = a, bytes = (\<lambda>_. 0)\<rparr>"
  by (simp add: NewBlock_def Reset_def Meta_def store64_zero LineEscape_def load64_def clearRuns_zero)


lemma NewBlock_code [code]:
  "NewBlock a lines =
     (if lines = 0
      then Done \<lparr>cursor = 0, limit = 0, lineAlloc = 3, data = a, bytes = (\<lambda>_. 0)\<rparr>
      else Reset \<lparr>cursor = 0, limit = 0, lineAlloc = 0, data = a,
                  bytes = store64 (\<lambda>_. 0) (a + 256) lines\<rparr>)"
  by (simp add: NewBlock_zero) (simp add: NewBlock_def)

section \<open>The allocator (cpusim)\<close>

text \<open>
  The \<open>full\<close> list is linked through \<open>Block.next\<close> in the source; here it is a list with
  the most recently filled block first.  Every function that may call \<open>NewBlock\<close> takes
  the addresses \<open>fresh\<close> at which Go's allocator will place the next new arrays, and
  returns the ones not used; when none is left the program dies with out of memory.
\<close>

record Allocator =
  main :: "Block option"
  overflow :: "Block option"
  full :: "Block list"
  existing :: "Block list"

definition NewAllocator :: "Block list \<Rightarrow> Allocator" where
  "NewAllocator blocks = \<lparr>main = None, overflow = None, full = [], existing = blocks\<rparr>"

definition getBlock :: "uintptr list \<Rightarrow> Allocator \<Rightarrow> (Block \<times> Allocator \<times> uintptr list) run" where
  "getBlock fresh a =
     (let n = length (existing a) in
      if n = 0 then
        (case fresh of
           [] \<Rightarrow> Panic OutOfMemory
         | f # fs \<Rightarrow>
             (case NewBlock f 0 of
                Panic e \<Rightarrow> Panic e
              | Done b \<Rightarrow> Done (b, a, fs)))
      else Done (existing a ! (n - 1), a\<lparr>existing := take (n - 1) (existing a)\<rparr>, fresh))"

lemma getBlock_decreases:
  assumes "getBlock fresh a = Done (b, a', fresh')"
  shows "length (existing a') + length fresh' < length (existing a) + length fresh"
proof (cases "length (existing a) = 0")
  case True
  with assms show ?thesis
    by (auto simp: getBlock_def split: list.splits run.splits)
next
  case False
  with assms show ?thesis
    by (auto simp: getBlock_def Let_def)
qed

text \<open>The inner \<open>for\<close> loop of \<open>Make\<close>, which is left only with an address.\<close>

fun overflowLoop :: "uintptr list \<Rightarrow> Block \<Rightarrow> uintptr \<Rightarrow> (uintptr \<times> Block \<times> uintptr list) run" where
  "overflowLoop fresh ov fullSize =
     (case tryAlloc ov fullSize of
        Panic e \<Rightarrow> Panic e
      | Done (addr, ov') \<Rightarrow>
          if addr \<noteq> 0 then Done (addr, ov', fresh)
          else
            (case fresh of
               [] \<Rightarrow> Panic OutOfMemory
             | f # fs \<Rightarrow>
                 (case NewBlock f 0 of
                    Panic e \<Rightarrow> Panic e
                  | Done nb \<Rightarrow> overflowLoop fs nb fullSize)))"

declare overflowLoop.simps [simp del]

text \<open>
  The outer loop.  The result says which block gave the address, since the header is
  written through that block's array.
\<close>

datatype source = FromMain | FromOverflow

definition overflowBlock :: "uintptr list \<Rightarrow> Allocator \<Rightarrow> (Block \<times> uintptr list) run" where
  "overflowBlock fresh a =
     (case overflow a of
        Some ov \<Rightarrow> Done (ov, fresh)
      | None \<Rightarrow>
          (case fresh of
             [] \<Rightarrow> Panic OutOfMemory
           | f # fs \<Rightarrow>
               (case NewBlock f 0 of
                  Panic e \<Rightarrow> Panic e
                | Done nb \<Rightarrow> Done (nb, fs))))"

function makeLoop ::
  "uintptr list \<Rightarrow> Allocator \<Rightarrow> uintptr \<Rightarrow> (uintptr \<times> source \<times> Allocator \<times> uintptr list) run"
where
  "makeLoop fresh a fullSize =
     (case main a of
        None \<Rightarrow> Panic NilDereference
      | Some m \<Rightarrow>
          (case tryAlloc m fullSize of
             Panic e \<Rightarrow> Panic e
           | Done (addr, m') \<Rightarrow>
               if addr \<noteq> 0 then Done (addr, FromMain, a\<lparr>main := Some m'\<rparr>, fresh)
               else if lineSize < fullSize \<and> lineSize < limit m' - cursor m' then
                 (case overflowBlock fresh a of
                    Panic e \<Rightarrow> Panic e
                  | Done (ov, fresh1) \<Rightarrow>
                      (case overflowLoop fresh1 ov fullSize of
                         Panic e \<Rightarrow> Panic e
                       | Done (addr', ov', fresh2) \<Rightarrow>
                           Done (addr', FromOverflow,
                                 a\<lparr>main := Some m', overflow := Some ov'\<rparr>, fresh2)))
               else
                 (case getBlock fresh (a\<lparr>main := Some m', full := m' # full a\<rparr>) of
                    Panic e \<Rightarrow> Panic e
                  | Done (nb, a', fresh') \<Rightarrow> makeLoop fresh' (a'\<lparr>main := Some nb\<rparr>) fullSize)))"
  by pat_completeness auto
termination
proof (relation "measure (\<lambda>(fresh, a, fullSize). length (existing a) + length fresh)", goal_cases)
  case 1
  show ?case by simp
next
  case (2 fresh a fullSize m r addr m' r2 nb r3 a' fresh')
  then have "getBlock fresh (a\<lparr>main := Some m', full := m' # full a\<rparr>) = Done (nb, a', fresh')"
    by simp
  from getBlock_decreases[OF this] show ?case by simp
qed

declare makeLoop.simps [simp del]

definition writeObject :: "memory \<Rightarrow> uintptr \<Rightarrow> uintptr \<Rightarrow> uintptr \<Rightarrow> memory" where
  "writeObject m addr sz typ =
     memclrNoHeapPointers (store64 m addr (typ OR push_bit 48 (sz div 8))) (addr + headerSize) sz"

definition Make ::
  "uintptr list \<Rightarrow> Allocator \<Rightarrow> uintptr \<Rightarrow> uintptr \<Rightarrow> (uintptr \<times> Allocator \<times> uintptr list) run"
where
  "Make fresh a sz typ =
     (case (if main a = None
            then (case getBlock fresh a of
                    Panic e \<Rightarrow> Panic e
                  | Done (b, a', fresh') \<Rightarrow> Done (a'\<lparr>main := Some b\<rparr>, fresh'))
            else Done (a, fresh)) of
        Panic e \<Rightarrow> Panic e
      | Done (a1, fresh1) \<Rightarrow>
          (let fullSize = AlignUp (sz + headerSize) minAlign in
           case makeLoop fresh1 a1 fullSize of
             Panic e \<Rightarrow> Panic e
           | Done (addr, src, a2, fresh2) \<Rightarrow>
               (let wr = (\<lambda>b. b\<lparr>bytes := writeObject (bytes b) addr sz typ\<rparr>) in
                Done (addr + headerSize,
                      (case src of
                         FromMain \<Rightarrow> a2\<lparr>main := map_option wr (main a2)\<rparr>
                       | FromOverflow \<Rightarrow> a2\<lparr>overflow := map_option wr (overflow a2)\<rparr>),
                      fresh2))))"

text \<open>\<open>Allocator.Reset\<close>: every full block is reset and appended to \<open>existing\<close>.\<close>

fun resetFull :: "Block list \<Rightarrow> Block list \<Rightarrow> Block list run" where
  "resetFull ex [] = Done ex"
| "resetFull ex (b # bs) =
     (case Reset b of
        Panic e \<Rightarrow> Panic e
      | Done b' \<Rightarrow> resetFull (ex @ [b']) bs)"

definition Allocator_Reset :: "Allocator \<Rightarrow> Allocator run" where
  "Allocator_Reset a =
     (case resetFull (existing a) (full a) of
        Panic e \<Rightarrow> Panic e
      | Done ex \<Rightarrow> Done (a\<lparr>existing := ex, full := []\<rparr>))"

section \<open>Escape marking (cpusim/esc.go)\<close>

text \<open>
  \<open>MarkEscaped\<close> is one function in the source; its steps are named here so that
  each can be spoken about: the search for the object's header word, the escape bits,
  the line-escape bits and the walk over the pointer slots.

  \<open>scanBack\<close> is the loop \<open>for n == 64\<close>.  \<open>d.ObjBits[k]\<close> is an array of 16 words
  and panics for \<open>k \<ge> 16\<close>, which is what happens when the index wraps below 0.
\<close>

lemma scanBack_step_less:
  fixes x :: "64 word"
  assumes "\<not> 16 \<le> (AlignDown x 64 - 64) div 64"
  shows "unat (AlignDown x 64 - 64) < unat x"
proof -
  define y where "y = AlignDown x 64"
  have yx: "y \<le> x" by (simp add: y_def AlignDown_def word_and_le2)
  show ?thesis
  proof (cases "64 \<le> y")
    case True
    then have "unat (y - 64) = unat y - 64" by (simp add: unat_sub)
    moreover from True have "64 \<le> unat y" by (simp add: word_le_nat_alt)
    moreover from yx have "unat y \<le> unat x" by (simp add: word_le_nat_alt)
    ultimately show ?thesis by (simp add: y_def)
  next
    case False
    then have "unat y < 64" by (simp add: word_le_nat_alt not_le)
    then have "unat (y - 64) = 2 ^ 64 + unat y - 64"
      by (simp add: unat_sub_if')
    then have "16 \<le> unat (y - 64) div 64" by simp
    then have "16 \<le> (y - 64) div 64" by (simp add: word_le_nat_alt unat_div)
    with assms show ?thesis by (simp add: y_def)
  qed
qed


function scanBack :: "memory \<Rightarrow> uintptr \<Rightarrow> uintptr \<Rightarrow> nat \<Rightarrow> (uintptr \<times> nat) run" where
  "scanBack m d objIdx n =
     (if n = 64 then
        (let objIdx' = AlignDown objIdx 64 - 64 in
         if 16 \<le> objIdx' div 64 then Panic IndexOutOfRange
         else scanBack m d objIdx' (LeadingZeros64 (ObjBits m d (objIdx' div 64))))
      else Done (objIdx, n))"
  by pat_completeness auto
termination
proof (relation "measure (\<lambda>(m, d, objIdx, n). unat objIdx)", goal_cases)
  case 1
  show ?case by simp
next
  case (2 m d objIdx n objIdx')
  from scanBack_step_less[of objIdx] 2 show ?case by simp
qed

declare scanBack.simps [simp del]

text \<open>The header word's index and address for the pointer \<open>a\<close> (lines 20 to 43).\<close>

definition findObjStart :: "memory \<Rightarrow> uintptr \<Rightarrow> (uintptr \<times> uintptr) run" where
  "findObjStart m a =
     (let base = AlignDown a BlockSize;
          objIdx = (a - base) div minAlign in
      if 16 \<le> (objIdx - 1) div 64 \<and> objIdx \<noteq> 0 then Panic IndexOutOfRange
      else if objIdx \<noteq> 0 \<and>
          ObjBits m base ((objIdx - 1) div 64) AND push_bit (unat ((objIdx - 1) mod 64)) 1 \<noteq> 0
      then Done (objIdx - 1, AlignDown a minAlign - minAlign)
      else if 16 \<le> objIdx div 64 then Panic IndexOutOfRange
      else
        (let mask = push_bit (unat objIdx) 1 - 1;
             n = LeadingZeros64 (ObjBits m base (objIdx div 64) AND mask) in
         case scanBack m base objIdx n of
           Panic e \<Rightarrow> Panic e
         | Done (objIdx1, n1) \<Rightarrow>
             (let objIdx2 = AlignDown objIdx1 64 + 64 - of_nat n1 - 1 in
              Done (objIdx2, base + objIdx2 * minAlign))))"

text \<open>The escape bits \<open>objIdx .. objEndIdx\<close> (lines 47 to 62).\<close>

definition setEscBits :: "memory \<Rightarrow> uintptr \<Rightarrow> uintptr \<Rightarrow> uintptr \<Rightarrow> memory run" where
  "setEscBits m d objIdx objEndIdx =
     (if objIdx div 64 = objEndIdx div 64 then
        (if 16 \<le> objIdx div 64 then Panic IndexOutOfRange
         else Done (store64 m (d + 8 * (objIdx div 64))
                (EscBits m d (objIdx div 64) OR
                 push_bit (unat (objIdx mod 64))
                   (push_bit (unat (objEndIdx - objIdx + 1)) 1 - 1))))
      else if 16 \<le> objEndIdx div 64 \<or> 16 \<le> objIdx div 64 then Panic IndexOutOfRange
      else
        (let m1 = store64 m (d + 8 * (objIdx div 64))
                    (EscBits m d (objIdx div 64) OR push_bit (unat (objIdx mod 64)) (NOT 0));
             m2 = fold (\<lambda>k m'. store64 m' (d + 8 * of_nat k) (NOT 0))
                    [unat (objIdx div 64 + 1)..<unat (objEndIdx div 64)] m1 in
         Done (store64 m2 (d + 8 * (objEndIdx div 64))
                 (EscBits m2 d (objEndIdx div 64) OR
                  (push_bit (unat (objEndIdx mod 64 + 1)) 1 - 1)))))"

text \<open>The line-escape bits (lines 64 to 67).\<close>

definition setLineEscape :: "memory \<Rightarrow> uintptr \<Rightarrow> uintptr \<Rightarrow> uintptr \<Rightarrow> memory" where
  "setLineEscape m base a sz =
     (let objLine = (a - base) div lineSize;
          objEndLine = (a + sz - base) div lineSize in
      store64 m (base + 256)
        (LineEscape m base OR
         push_bit (unat objLine) (push_bit (unat (objEndLine - objLine)) 1)))"

text \<open>
  The type descriptors lie outside the blocks, and the iterator \<open>typePointers\<close> is not
  part of the sources at hand.  Both are parameters: \<open>PtrBytes\<close> gives the field of the
  descriptor at a type pointer, \<open>pointerSlots\<close> the slot addresses that the iterator
  yields for a descriptor, a payload address and a limit.
\<close>

record FakeTypes =
  PtrBytes :: "uintptr \<Rightarrow> uintptr"
  pointerSlots :: "uintptr \<Rightarrow> uintptr \<Rightarrow> uintptr \<Rightarrow> uintptr list"

text \<open>
  \<open>MarkEscaped\<close>.  In the last loop a slot that holds a pointer other than 0 makes the
  function panic, so the recursive call is only ever made with \<open>nil\<close>, where it returns
  at once: the recursion adds nothing to the memory and is not unfolded.
\<close>

definition MarkEscaped :: "FakeTypes \<Rightarrow> memory \<Rightarrow> uintptr \<Rightarrow> memory run" where
  "MarkEscaped ty m a =
     (if a = 0 then Done m
      else
        (let base = AlignDown a BlockSize in
         case findObjStart m a of
           Panic e \<Rightarrow> Panic e
         | Done (objIdx, objStart) \<Rightarrow>
             (let header = load64 m objStart;
                  sz = drop_bit 48 header * 8;
                  objEndIdx = objIdx + sz div minAlign in
              case setEscBits m base objIdx objEndIdx of
                Panic e \<Rightarrow> Panic e
              | Done m1 \<Rightarrow>
                  (let m2 = setLineEscape m1 base a sz;
                       typ = header AND (push_bit 48 1 - 1) in
                   if PtrBytes ty typ = 0 then Done m2
                   else if list_ex (\<lambda>s. load64 m2 s \<noteq> 0)
                             (pointerSlots ty typ (objStart + headerSize)
                                (objStart + headerSize + sz))
                   then Panic ExpectedZeroedMemory
                   else Done m2))))"

section \<open>The write barrier (cpusim)\<close>

text \<open>
  The global \<open>MinRegionAddress\<close> is the first argument.  Each barrier returns whether
  it calls \<open>dummyMarkEscaped\<close>.
\<close>

definition escapedOrHeap :: "uintptr \<Rightarrow> memory \<Rightarrow> uintptr \<Rightarrow> bool" where
  "escapedOrHeap MinRegionAddress m ptr =
     (if ptr < MinRegionAddress then True
      else
        (let base = AlignDown ptr 8192;
             word = (ptr - base) div 8 in
         m (base + word div 8) AND push_bit (unat (word mod 8)) 1 \<noteq> 0))"

definition RegionWriteBarrierFastPathReference :: "uintptr \<Rightarrow> memory \<Rightarrow> uintptr \<Rightarrow> uintptr \<Rightarrow> bool" where
  "RegionWriteBarrierFastPathReference MinRegionAddress m ptr dst =
     (if escapedOrHeap MinRegionAddress m ptr \<or> \<not> escapedOrHeap MinRegionAddress m dst
      then False
      else True)"

definition RegionWriteBarrierFastPath :: "uintptr \<Rightarrow> memory \<Rightarrow> uintptr \<Rightarrow> uintptr \<Rightarrow> bool" where
  "RegionWriteBarrierFastPath MinRegionAddress m ptr dst =
     (if ptr = 0 then False
      else
        (let split = MinRegionAddress in
         if ptr < split then False
         else if split \<le> dst \<and>
              (let base = dst AND NOT (8192 - 1);
                   word = (dst - base) div 8 in
               load64 m (base + word div 64) AND push_bit (unat (word mod 64)) 1 = 0)
         then False
         else
           (let base = ptr AND NOT (8192 - 1);
                word = (ptr - base) div 8 in
            if load64 m (base + word div 64) AND push_bit (unat (word mod 64)) 1 \<noteq> 0
            then False
            else True)))"


section \<open>The free run is never used up (claim C10)\<close>

lemma tryAllocFast_success:
  assumes "tryAllocFast b sz = Done (addr, b')" "addr \<noteq> 0"
  shows "cursor b + sz < limit b" "addr = cursor b" "cursor b' = cursor b + sz" "limit b' = limit b"
  using assms by (auto simp: tryAllocFast_def Let_def split: if_splits)

lemma tryAllocFast_exact_fit:
  "cursor b + sz = limit b \<Longrightarrow> tryAllocFast b sz = Done (0, b)"
  by (simp add: tryAllocFast_def Let_def)

lemma tryAlloc1_success:
  "tryAlloc1 b sz = Done (addr, b') \<Longrightarrow> addr \<noteq> 0 \<Longrightarrow> cursor b' = addr + sz \<and> addr + sz < limit b'"
proof (induction b sz rule: tryAlloc1.induct)
  case (1 b sz)
  obtain ok b1 where r: "refill b = (ok, b1)" by (cases "refill b")
  show ?case
  proof (cases ok)
    case False
    with r "1.prems" show ?thesis by (simp add: tryAlloc1.simps[of b sz])
  next
    case True
    with r have r': "refill b = (True, b1)" by simp
    show ?thesis
    proof (cases "tryAllocFast b1 sz")
      case (Panic p)
      with r' "1.prems" show ?thesis by (simp add: tryAlloc1.simps[of b sz])
    next
      case (Done res)
      obtain a2 b2 where res: "res = (a2, b2)" by (cases res)
      show ?thesis
      proof (cases "a2 = 0")
        case True
        with r' Done res "1.prems" have "tryAlloc1 b2 sz = Done (addr, b')"
          by (simp add: tryAlloc1.simps[of b sz])
        from "1.IH"[OF r'[symmetric] refl Done[unfolded res] refl _ this "1.prems"(2)] True
        show ?thesis by simp
      next
        case False
        with r' Done res "1.prems" have e: "addr = a2" "b' = b2"
          by (simp_all add: tryAlloc1.simps[of b sz])
        from tryAllocFast_success[OF Done[unfolded res] False] e show ?thesis by simp
      qed
    qed
  qed
qed

lemma tryAlloc_success:
  assumes "tryAlloc b sz = Done (addr, b')" "addr \<noteq> 0"
  shows "cursor b' = addr + sz \<and> addr + sz < limit b'"
proof (cases "tryAllocFast b sz")
  case (Panic p)
  with assms show ?thesis by (simp add: tryAlloc_def)
next
  case (Done res)
  obtain a2 b2 where res: "res = (a2, b2)" by (cases res)
  show ?thesis
  proof (cases "a2 = 0")
    case True
    with Done res assms have "tryAlloc1 b2 sz = Done (addr, b')" by (simp add: tryAlloc_def)
    from tryAlloc1_success[OF this assms(2)] show ?thesis .
  next
    case False
    with Done res assms have e: "addr = a2" "b' = b2" by (simp_all add: tryAlloc_def)
    from tryAllocFast_success[OF Done[unfolded res] False] e show ?thesis by simp
  qed
qed


lemma last_byte_kept:
  fixes addr sz lim x :: "64 word"
  assumes "addr + sz < lim" "unat addr + unat sz < 2 ^ 64" "x - addr < sz"
  shows "x \<noteq> lim - 1"
proof
  assume x: "x = lim - 1"
  have s: "unat (addr + sz) = unat addr + unat sz"
    using assms(2) by (simp add: unat_add_lem[THEN iffD1])
  with assms(1) have l: "unat addr + unat sz < unat lim" by (simp add: word_less_nat_alt)
  then have l1: "unat (lim - 1) = unat lim - 1"
    by (subst unat_sub) (auto simp: word_le_nat_alt)
  have "addr \<le> lim - 1" using l l1 by (simp add: word_le_nat_alt)
  then have "unat (lim - 1 - addr) = unat lim - 1 - unat addr"
    using l1 by (simp add: unat_sub)
  with assms(3) x have "unat lim - 1 - unat addr < unat sz" by (simp add: word_less_nat_alt)
  with l show False by simp
qed


text \<open>
  Claim C10.  \<open>tryAllocFast\<close> hands out an address only when \<open>cursor + size\<close> is
  strictly below \<open>limit\<close>; a request that would end exactly at \<open>limit\<close> is refused there
  and goes on to the refill loop \<open>tryAlloc1\<close>; after every successful \<open>tryAlloc\<close> the
  cursor is the end of the extent handed out and is strictly below the limit, so (the
  extent not wrapping around the address space) the last byte of the run, at
  \<open>limit - 1\<close>, is not part of it.
\<close>

theorem tryAlloc_strictly_below_limit:
  "(tryAllocFast b sz = Done (addr, b') \<and> addr \<noteq> 0 \<longrightarrow>
      cursor b + sz < limit b \<and> addr = cursor b \<and> cursor b' = cursor b + sz \<and> limit b' = limit b)
   \<and> (cursor b + sz = limit b \<longrightarrow>
      tryAllocFast b sz = Done (0, b) \<and> tryAlloc b sz = tryAlloc1 b sz)
   \<and> (tryAlloc b sz = Done (addr, b') \<and> addr \<noteq> 0 \<longrightarrow>
      cursor b' = addr + sz \<and> cursor b' < limit b'
      \<and> (unat addr + unat sz < 2 ^ 64 \<longrightarrow> (\<forall>x. x - addr < sz \<longrightarrow> x \<noteq> limit b' - 1)))"
proof (intro conjI impI allI)
  assume "tryAllocFast b sz = Done (addr, b') \<and> addr \<noteq> 0"
  then have h: "tryAllocFast b sz = Done (addr, b')" "addr \<noteq> 0" by simp_all
  from tryAllocFast_success[OF h]
  show "cursor b + sz < limit b" "addr = cursor b" "cursor b' = cursor b + sz" "limit b' = limit b" .
next
  assume e: "cursor b + sz = limit b"
  from tryAllocFast_exact_fit[OF e] show f: "tryAllocFast b sz = Done (0, b)" .
  then show "tryAlloc b sz = tryAlloc1 b sz" by (simp add: tryAlloc_def)
next
  assume "tryAlloc b sz = Done (addr, b') \<and> addr \<noteq> 0"
  then have h: "tryAlloc b sz = Done (addr, b')" "addr \<noteq> 0" by simp_all
  from tryAlloc_success[OF h] show c: "cursor b' = addr + sz" and l: "cursor b' < limit b'" by simp_all
  fix x assume "unat addr + unat sz < 2 ^ 64" "x - addr < sz"
  with c l show "x \<noteq> limit b' - 1" by (intro last_byte_kept[of addr sz]) simp_all
qed


definition c10_block :: Block where
  "c10_block = \<lparr>cursor = 0x10110, limit = 0x10180, lineAlloc = 7, data = 0x10000,
                 bytes = (\<lambda>_. 0)\<rparr>"

definition c10_block' :: Block where
  "c10_block' = c10_block\<lparr>cursor := 0x10120, bytes := (\<lambda>_. 0)(0x10084 := 4)\<rparr>"

theorem tryAlloc_strictly_below_limit_witness:
  "tryAllocFast c10_block 16 = Done (0x10110, c10_block') \<and> tryAlloc c10_block 16 = Done (0x10110, c10_block')
   \<and> cursor c10_block' = 0x10120 \<and> cursor c10_block' < limit c10_block'
   \<and> (0x1011F :: 64 word) - 0x10110 < 16 \<and> 0x1011F \<noteq> limit c10_block' - 1
   \<and> cursor c10_block + 112 = limit c10_block \<and> tryAllocFast c10_block 112 = Done (0, c10_block)"
proof -
  have f: "tryAllocFast c10_block 16 = Done (0x10110, c10_block')"
    by (simp add: tryAllocFast_def c10_block_def c10_block'_def Base_def minAlign_def
        BitmapSize_def BlockSize_def)
  then have t: "tryAlloc c10_block 16 = Done (0x10110, c10_block')"
    by (simp add: tryAlloc_def)
  have e: "cursor c10_block + 112 = limit c10_block"
    by (simp add: c10_block_def)
  have n: "unat (0x10110 :: 64 word) + unat (16 :: 64 word) < 2 ^ 64" by simp
  have nz: "(0x10110 :: 64 word) \<noteq> 0" by simp
  from tryAlloc_strictly_below_limit[of c10_block 16 "0x10110" c10_block'] t nz
  have c: "cursor c10_block' = 0x10110 + 16 \<and> cursor c10_block' < limit c10_block'
      \<and> (unat (0x10110 :: 64 word) + unat (16 :: 64 word) < 2 ^ 64 \<longrightarrow>
          (\<forall>x. x - 0x10110 < 16 \<longrightarrow> x \<noteq> limit c10_block' - 1))"
    by blast
  from c have c1: "cursor c10_block' = 0x10110 + 16" by blast
  from c n have "cursor c10_block' < limit c10_block'"
    and a: "\<forall>x. x - 0x10110 < 16 \<longrightarrow> x \<noteq> limit c10_block' - 1"
    by blast+
  moreover have i: "(0x1011F :: 64 word) - 0x10110 < 16" by simp
  moreover from a i have "0x1011F \<noteq> limit c10_block' - 1" by blast
  moreover from c1 have "cursor c10_block' = 0x10120" by simp
  moreover from tryAlloc_strictly_below_limit[of c10_block 112] e
  have "tryAllocFast c10_block 112 = Done (0, c10_block)" by blast
  ultimately show ?thesis using f t e by blast
qed

section \<open>The sweep parser panics on a truncated program (claim C7)\<close>

text \<open>
  Claim C7 says that \<open>parseVaryProgram\<close> answers every malformed sweep string with an
  error value.  For the string \<open>B_R=\<close> it does not: after the parameter name the
  parser reads \<open>vp[0]\<close> of the empty rest, which is a run-time panic, whatever the
  number parsers do.  The same happens when the string ends after the closing bracket.
\<close>

theorem parseVaryProgram_truncated_panics:
  "parseVaryProgram pf pint ''B_R='' = Panicked IndexOutOfRange"
  by (simp add: parseVaryProgram_def parseVaryVars.simps param2Extractor_def)

lemma parseVaryProgram_no_steps_panics:
  "pf ''0'' = Some l \<Longrightarrow> pf ''1'' = Some h \<Longrightarrow>
   parseVaryProgram pf pint ''B_R=[0:1]'' = Panicked IndexOutOfRange"
  by (simp add: parseVaryProgram_def parseVaryVars.simps param2Extractor_def)

lemma parseVaryProgram_unknown_parameter:
  "parseVaryProgram pf pint ''X_R=[0:1]/3'' = Err (UnknownParameter ''X_R'')"
  by (simp add: parseVaryProgram_def parseVaryVars.simps param2Extractor_def)

end
